theory Spec2Isabelle
  imports Main "HOL-Library.Sublist"
begin

section \<open>The worker thread of osi/src/thread.c\<close>

text \<open>
  A shallow embedding of \<^verbatim>\<open>src/osi/src/thread.c\<close>. The C functions become HOL
  functions over an explicit state: the \<^verbatim>\<open>thread_t\<close> block and a \<open>world\<close> that
  accounts for every live allocation, holds the semaphore counters and the log, and
  records which work items were accepted by the queue and which callbacks were run.

  Two threads meet in this file. The creator and the spawned thread are sequenced by
  their semaphore, so \<open>thread_new\<close> runs the start of \<open>run_thread\<close> in line, where
  \<open>pthread_create\<close> has started a thread; where it has not, the creator waits. What the
  other threads do while the worker is in its reactor or in its drain loop is an input:
  a list of events, in the order in which they take effect.
\<close>

subsection \<open>Data model\<close>

text \<open>Every kind of block or library object the file allocates and releases.\<close>

datatype alloc =
    thread_block | reactor_block | fixed_queue_block | semaphore_block
  | work_item_block | reactor_register_arg_block

text \<open>
  A \<^verbatim>\<open>reactor_object_t\<close>: the one \<open>run_thread\<close> builds on its stack for the work queue
  (context = the queue, fd = its dequeue fd, interest = read, read_ready =
  \<open>work_queue_read_cb\<close>), or one owned by a caller.
\<close>

datatype reactor_object_t = work_queue_object | external_object nat

text \<open>
  A \<^verbatim>\<open>thread_fn\<close> is a function pointer: one of the two callbacks of this file, or a
  caller's function, which the model does not look into. A context is what the
  \<^verbatim>\<open>void *\<close> points to: a \<^verbatim>\<open>reactor_register_arg_t\<close>, a \<^verbatim>\<open>reactor_unregister_arg_t\<close>
  (with the address of its semaphore), or caller data. The \<^verbatim>\<open>thread\<close> field of the two
  argument blocks is the one thread of the model.
\<close>

datatype thread_fn = register_with_reactor_cb_ptr | unregister_with_reactor_cb_ptr | user_fn nat

datatype context_t =
    reactor_register_arg reactor_object_t
  | reactor_unregister_arg reactor_object_t nat
  | user_context nat

record work_item_t =
  func :: thread_fn
  ctxt :: context_t

record fixed_queue_t =
  capacity :: nat
  items :: "work_item_t list"

record reactor_t =
  registered :: "reactor_object_t list"
  stop_requested :: bool

text \<open>
  What the \<^verbatim>\<open>pthread_t\<close> of the block stands for: no thread yet (the block is zeroed),
  a thread that passed the start handshake and is on its way into the reactor, a thread
  inside \<open>reactor_start\<close>, or one whose \<open>run_thread\<close> has returned.
\<close>

datatype pthread_t = not_created | started | in_reactor | exited

text \<open>
  A \<open>thread_t\<close> value is a constructed thread. Only \<open>thread_new\<close> makes one, after it has
  checked both pointers, and nothing assigns them later, so the two objects are held
  in line. The half-built block inside \<open>thread_new\<close> keeps them as options.
\<close>

record thread_t =
  pthread :: pthread_t
  tid :: int
  name :: string
  reactor :: reactor_t
  work_queue :: fixed_queue_t

datatype log_level = LOG_ERROR | LOG_DEBUG

text \<open>
  \<open>live\<close> lists the allocations not yet released; \<open>sems\<close> is the store of semaphore
  counters, a semaphore's address being its index. \<open>posted\<close> and \<open>ran\<close> are history:
  the items in the order the queue accepted them, and the items whose callback was
  called, oldest first.
\<close>

record world =
  live :: "alloc list"
  sems :: "nat list"
  logcat :: "(log_level \<times> string) list"
  posted :: "work_item_t list"
  ran :: "work_item_t list"

text \<open>
  How a call ends: it returns; or it waits, for room in the queue or on a semaphore,
  and nothing in its inputs releases it; or it writes through a null pointer.
\<close>

datatype 'a outcome = Return (returned: 'a) | Blocked | Fault

record start_arg =
  thread :: thread_t
  start_sem :: nat
  error :: int

definition WORK_QUEUE_CAPACITY :: nat where
  "WORK_QUEUE_CAPACITY = 128"

subsection \<open>The libraries the file calls\<close>

text \<open>
  The allocator and the logger. An allocation succeeds or fails as its first argument
  says; \<^verbatim>\<open>calloc\<close> is \<open>malloc\<close> here, and the zeroed fields are written out where the
  block is built. A log line is the format with the function name filled in, without
  the text of the error number.
\<close>

definition malloc :: "bool \<Rightarrow> alloc \<Rightarrow> world \<Rightarrow> bool \<times> world" where
  "malloc ok a w = (if ok then (True, w\<lparr>live := a # live w\<rparr>) else (False, w))"

definition free_block :: "alloc \<Rightarrow> world \<Rightarrow> world" where
  "free_block a w = w\<lparr>live := remove1 a (live w)\<rparr>"

definition ALOGE :: "string \<Rightarrow> world \<Rightarrow> world" where
  "ALOGE msg w = w\<lparr>logcat := logcat w @ [(LOG_ERROR, msg)]\<rparr>"

definition ALOGD :: "string \<Rightarrow> world \<Rightarrow> world" where
  "ALOGD msg w = w\<lparr>logcat := logcat w @ [(LOG_DEBUG, msg)]\<rparr>"

text \<open>
  Modelled from the spec: the event-loop engine, \<^verbatim>\<open>reactor.h\<close>, which is not under
  \<^verbatim>\<open>src/\<close>. It holds the objects registered with it and the request to stop.
  \<open>reactor_free\<close> accepts a null pointer, which \<open>thread_new\<close> relies on.
\<close>

definition reactor_new :: "bool \<Rightarrow> world \<Rightarrow> reactor_t option \<times> world" where
  "reactor_new ok w =
     (if ok then (Some \<lparr>registered = [], stop_requested = False\<rparr>, w\<lparr>live := reactor_block # live w\<rparr>)
      else (None, w))"

definition reactor_free :: "reactor_t option \<Rightarrow> world \<Rightarrow> world" where
  "reactor_free r w = (case r of None \<Rightarrow> w | Some _ \<Rightarrow> free_block reactor_block w)"

definition reactor_register :: "reactor_object_t \<Rightarrow> reactor_t \<Rightarrow> reactor_t" where
  "reactor_register obj r = r\<lparr>registered := registered r @ [obj]\<rparr>"

definition reactor_unregister :: "reactor_object_t \<Rightarrow> reactor_t \<Rightarrow> reactor_t" where
  "reactor_unregister obj r = r\<lparr>registered := removeAll obj (registered r)\<rparr>"

definition reactor_stop :: "reactor_t \<Rightarrow> reactor_t" where
  "reactor_stop r = r\<lparr>stop_requested := True\<rparr>"

text \<open>
  Modelled from the spec: the bounded work queue, \<^verbatim>\<open>fixed_queue.h\<close>, which is not under
  \<^verbatim>\<open>src/\<close>. It is a FIFO. \<open>enqueue\<close> waits while the queue is full and \<open>dequeue\<close>
  while it is empty, which is the result \<open>None\<close>; \<open>try_dequeue\<close> returns no item when
  it is empty. \<open>fixed_queue_free\<close> releases the items left in the queue, with
  \<^verbatim>\<open>free\<close> as \<open>thread.c\<close> calls it, and accepts a null pointer.
\<close>

definition fixed_queue_new :: "bool \<Rightarrow> nat \<Rightarrow> world \<Rightarrow> fixed_queue_t option \<times> world" where
  "fixed_queue_new ok cap w =
     (if ok then (Some \<lparr>capacity = cap, items = []\<rparr>, w\<lparr>live := fixed_queue_block # live w\<rparr>)
      else (None, w))"

definition fixed_queue_free :: "fixed_queue_t option \<Rightarrow> world \<Rightarrow> world" where
  "fixed_queue_free q w =
     (case q of None \<Rightarrow> w
      | Some qu \<Rightarrow> free_block fixed_queue_block (fold (\<lambda>_. free_block work_item_block) (items qu) w))"

definition fixed_queue_enqueue :: "fixed_queue_t \<Rightarrow> work_item_t \<Rightarrow> fixed_queue_t option" where
  "fixed_queue_enqueue q item =
     (if length (items q) < capacity q then Some (q\<lparr>items := items q @ [item]\<rparr>) else None)"

definition fixed_queue_dequeue :: "fixed_queue_t \<Rightarrow> (work_item_t \<times> fixed_queue_t) option" where
  "fixed_queue_dequeue q =
     (case items q of [] \<Rightarrow> None | x # xs \<Rightarrow> Some (x, q\<lparr>items := xs\<rparr>))"

definition fixed_queue_try_dequeue :: "fixed_queue_t \<Rightarrow> work_item_t option \<times> fixed_queue_t" where
  "fixed_queue_try_dequeue q =
     (case items q of [] \<Rightarrow> (None, q) | x # xs \<Rightarrow> (Some x, q\<lparr>items := xs\<rparr>))"

text \<open>
  Modelled from the spec: the rendezvous semaphore, \<^verbatim>\<open>semaphore.h\<close>, which is not
  under \<^verbatim>\<open>src/\<close>. It is a counter: \<open>post\<close> adds one, \<open>wait\<close> takes one and waits
  while there is none, which is the result \<open>None\<close>.
\<close>

definition semaphore_new :: "bool \<Rightarrow> nat \<Rightarrow> world \<Rightarrow> nat option \<times> world" where
  "semaphore_new ok n w =
     (if ok then (Some (length (sems w)), w\<lparr>live := semaphore_block # live w, sems := sems w @ [n]\<rparr>)
      else (None, w))"

definition semaphore_post :: "nat \<Rightarrow> world \<Rightarrow> world" where
  "semaphore_post s w = w\<lparr>sems := (sems w)[s := Suc (sems w ! s)]\<rparr>"

definition semaphore_wait :: "nat \<Rightarrow> world \<Rightarrow> world option" where
  "semaphore_wait s w =
     (if s < length (sems w) \<and> 0 < sems w ! s then Some (w\<lparr>sems := (sems w)[s := sems w ! s - 1]\<rparr>)
      else None)"

definition semaphore_free :: "nat \<Rightarrow> world \<Rightarrow> world" where
  "semaphore_free s w = free_block semaphore_block w"

text \<open>
  A C string ends at its first NUL. \<open>strncpy dst src n\<close> writes the first \<open>n\<close> bytes of
  \<open>dst\<close>: the string \<open>src\<close> cut to \<open>n\<close> characters, then NULs.
\<close>

definition NUL :: char where
  "NUL = CHR 0x00"

definition c_str :: "string \<Rightarrow> string" where
  "c_str buf = takeWhile (\<lambda>c. c \<noteq> NUL) buf"

definition strncpy :: "string \<Rightarrow> string \<Rightarrow> nat \<Rightarrow> string" where
  "strncpy dst src n =
     (let s = take n (c_str src) in s @ replicate (n - length s) NUL @ drop n dst)"

text \<open>
  What \<open>prctl\<close> leaves in \<^verbatim>\<open>errno\<close> when it returns -1: an error number, which is never 0.
\<close>

datatype errno = EPERM | EFAULT | EINVAL

fun errno_val :: "errno \<Rightarrow> int" where
  "errno_val EPERM = 1"
| "errno_val EFAULT = 14"
| "errno_val EINVAL = 22"

text \<open>
  What \<open>pthread_create\<close> does: it fails and starts no thread, or it starts a thread that
  runs \<open>run_thread\<close>, where \<open>prctl\<close> succeeds (\<open>None\<close>) or fails with an error number.
\<close>

datatype spawn_result = no_thread | thread_runs "errno option"

text \<open>
  What the system answers during one \<open>thread_new\<close>: whether each of the four allocations
  succeeds, what \<open>pthread_create\<close> does, and the thread id.
\<close>

record new_env =
  calloc_ok :: bool
  reactor_ok :: bool
  queue_ok :: bool
  sem_ok :: bool
  spawn :: spawn_result
  gettid :: int

text \<open>
  Whether \<open>prctl\<close> fails in the spawned thread, and with which error. Where no thread was
  started there is no call of \<open>prctl\<close>, and none that fails.
\<close>

definition prctl_fails :: "new_env \<Rightarrow> errno option" where
  "prctl_fails env = (case spawn env of no_thread \<Rightarrow> None | thread_runs r \<Rightarrow> r)"

subsection \<open>thread_new and the start of run_thread\<close>

text \<open>
  \<open>run_thread\<close> up to its \<open>semaphore_post\<close>, lines 194 to 207: the point where the
  creator resumes.
\<close>

definition run_thread_start :: "new_env \<Rightarrow> start_arg \<Rightarrow> world \<Rightarrow> start_arg \<times> world" where
  "run_thread_start env start w =
     (case prctl_fails env of
        Some e \<Rightarrow>
          (start\<lparr>thread := (thread start)\<lparr>pthread := exited\<rparr>, error := errno_val e\<rparr>,
           semaphore_post (start_sem start) (ALOGE ''run_thread unable to set thread name'' w))
      | None \<Rightarrow>
          (start\<lparr>thread := (thread start)\<lparr>pthread := started, tid := gettid env\<rparr>\<rparr>,
           semaphore_post (start_sem start) w))"

text \<open>
  \<open>pthread_create\<close>, line 95, as far as the creator sees it: by the time the creator reaches
  its \<open>semaphore_wait\<close> the new thread has run up to its \<open>semaphore_post\<close>, or there is no
  new thread and \<open>start\<close> and the semaphore are as they were. The source does not read the
  result of \<open>pthread_create\<close>, so the model returns none.
\<close>

definition pthread_create :: "new_env \<Rightarrow> start_arg \<Rightarrow> world \<Rightarrow> start_arg \<times> world" where
  "pthread_create env start w =
     (case spawn env of
        no_thread \<Rightarrow> (start, w)
      | thread_runs r \<Rightarrow> run_thread_start env start w)"

text \<open>
  The \<^verbatim>\<open>error:\<close> label of \<open>thread_new\<close>. \<open>ret\<close> is null, or the block with the two
  pointers as they are at the jump.
\<close>

definition thread_new_error ::
  "(reactor_t option \<times> fixed_queue_t option) option \<Rightarrow> world \<Rightarrow> (thread_t option \<times> world) outcome" where
  "thread_new_error ret w =
     (case ret of
        None \<Rightarrow> Return (None, w)
      | Some (r, q) \<Rightarrow> Return (None, free_block thread_block (reactor_free r (fixed_queue_free q w))))"

definition thread_new ::
  "nat \<Rightarrow> new_env \<Rightarrow> string \<Rightarrow> world \<Rightarrow> (thread_t option \<times> world) outcome" where
  "thread_new THREAD_NAME_MAX env name_arg w0 =
     (case malloc (calloc_ok env) thread_block w0 of
        (False, w1) \<Rightarrow> thread_new_error None w1
      | (True, w1) \<Rightarrow>
          (case reactor_new (reactor_ok env) w1 of
             (None, w2) \<Rightarrow> thread_new_error (Some (None, None)) w2
           | (Some r, w2) \<Rightarrow>
               (case fixed_queue_new (queue_ok env) WORK_QUEUE_CAPACITY w2 of
                  (None, w3) \<Rightarrow> thread_new_error (Some (Some r, None)) w3
                | (Some q, w3) \<Rightarrow>
                    (case semaphore_new (sem_ok env) 0 w3 of
                       (None, w4) \<Rightarrow> thread_new_error (Some (Some r, Some q)) w4
                     | (Some s, w4) \<Rightarrow>
                         (let ret = \<lparr>pthread = not_created, tid = 0,
                                     name = strncpy (replicate (THREAD_NAME_MAX + 1) NUL) name_arg THREAD_NAME_MAX,
                                     reactor = r, work_queue = q\<rparr>;
                              start = \<lparr>thread = ret, start_sem = s, error = 0\<rparr>;
                              (start', w5) = pthread_create env start w4
                          in case semaphore_wait s w5 of
                               None \<Rightarrow> Blocked
                             | Some w6 \<Rightarrow>
                                 (let w7 = semaphore_free s w6;
                                      ret' = thread start'
                                  in if error start' \<noteq> 0
                                     then thread_new_error (Some (Some (reactor ret'), Some (work_queue ret'))) w7
                                     else Return (Some ret', w7)))))))"

subsection \<open>Posting, stopping and the accessors\<close>

type_synonym state = "thread_t \<times> world"

text \<open>
  \<open>thread_post\<close>: \<open>item_ok\<close> says whether \<^verbatim>\<open>malloc\<close> gives a work item. The call is
  \<open>Blocked\<close> when the queue is full: \<open>fixed_queue_enqueue\<close> waits for room.
\<close>

definition thread_post :: "bool \<Rightarrow> thread_fn \<Rightarrow> context_t \<Rightarrow> state \<Rightarrow> (bool \<times> state) outcome" where
  "thread_post item_ok f c s =
     (case s of (t, w) \<Rightarrow>
        (case malloc item_ok work_item_block w of
           (False, w1) \<Rightarrow> Return (False, t, ALOGE ''thread_post unable to allocate memory'' w1)
         | (True, w1) \<Rightarrow>
             (case fixed_queue_enqueue (work_queue t) \<lparr>func = f, ctxt = c\<rparr> of
                None \<Rightarrow> Blocked
              | Some q \<Rightarrow>
                  Return (True, t\<lparr>work_queue := q\<rparr>, w1\<lparr>posted := posted w1 @ [\<lparr>func = f, ctxt = c\<rparr>]\<rparr>))))"

definition thread_stop :: "state \<Rightarrow> state" where
  "thread_stop s = (case s of (t, w) \<Rightarrow> (t\<lparr>reactor := reactor_stop (reactor t)\<rparr>, w))"

definition thread_get_reactor :: "thread_t \<Rightarrow> reactor_t" where
  "thread_get_reactor t = reactor t"

definition thread_name :: "thread_t \<Rightarrow> string" where
  "thread_name t = name t"

subsection \<open>The callbacks\<close>

text \<open>
  The two callbacks of the file take the argument block they were posted with. They are
  static, so no caller can post them with another context; on one the model does nothing.
\<close>

definition register_with_reactor_cb :: "context_t \<Rightarrow> state \<Rightarrow> state" where
  "register_with_reactor_cb c s =
     (case s of (t, w) \<Rightarrow>
        (case c of
           reactor_register_arg obj \<Rightarrow>
             (t\<lparr>reactor := reactor_register obj (thread_get_reactor t)\<rparr>,
              free_block reactor_register_arg_block w)
         | _ \<Rightarrow> s))"

definition unregister_with_reactor_cb :: "context_t \<Rightarrow> state \<Rightarrow> state" where
  "unregister_with_reactor_cb c s =
     (case s of (t, w) \<Rightarrow>
        (case c of
           reactor_unregister_arg obj sem \<Rightarrow>
             (t\<lparr>reactor := reactor_unregister obj (thread_get_reactor t)\<rparr>, semaphore_post sem w)
         | _ \<Rightarrow> s))"

text \<open>
  \<^verbatim>\<open>item->func(item->context)\<close> on the worker: the call is recorded in \<open>ran\<close>; a caller's
  function does nothing else the model sees.
\<close>

definition call :: "work_item_t \<Rightarrow> state \<Rightarrow> state" where
  "call item s =
     (case s of (t, w) \<Rightarrow>
        (let s1 = (t, w\<lparr>ran := ran w @ [item]\<rparr>)
         in case func item of
              register_with_reactor_cb_ptr \<Rightarrow> register_with_reactor_cb (ctxt item) s1
            | unregister_with_reactor_cb_ptr \<Rightarrow> unregister_with_reactor_cb (ctxt item) s1
            | user_fn _ \<Rightarrow> s1))"

text \<open>
  \<open>work_queue_read_cb\<close>; \<open>None\<close> when the queue is empty, where \<open>fixed_queue_dequeue\<close>
  waits.
\<close>

definition work_queue_read_cb :: "state \<Rightarrow> state option" where
  "work_queue_read_cb s =
     (case s of (t, w) \<Rightarrow>
        (case fixed_queue_dequeue (work_queue t) of
           None \<Rightarrow> None
         | Some (item, q) \<Rightarrow>
             (case call item (t\<lparr>work_queue := q\<rparr>, w) of
                (t', w') \<Rightarrow> Some (t', free_block work_item_block w'))))"

subsection \<open>The worker: reactor, then drain\<close>

text \<open>
  What other threads, or a running callback, do to the thread: a \<open>thread_post\<close> that
  has returned, or a \<open>thread_stop\<close>. A post that would wait for room has not happened.
\<close>

datatype api_call = Post bool thread_fn context_t | Stop

fun other_thread :: "api_call \<Rightarrow> state \<Rightarrow> state" where
  "other_thread (Post item_ok f c) s =
     (case thread_post item_ok f c s of Return (_, s') \<Rightarrow> s' | _ \<Rightarrow> s)"
| "other_thread Stop s = thread_stop s"

text \<open>
  Modelled from the spec: the event-loop engine. While it runs it calls the read
  callback of a registered object whose descriptor is readable, here the work queue
  when it holds an item; \<open>reactor_start\<close> returns once a stop is requested, after the
  events that came before the reactor noticed, and never without a stop.
\<close>

datatype event = Call api_call | Ready

definition reactor_event :: "event \<Rightarrow> state \<Rightarrow> state" where
  "reactor_event e s =
     (case e of
        Call a \<Rightarrow> other_thread a s
      | Ready \<Rightarrow>
          (if work_queue_object \<in> set (registered (reactor (fst s)))
           then (case work_queue_read_cb s of None \<Rightarrow> s | Some s' \<Rightarrow> s')
           else s))"

definition reactor_start :: "event list \<Rightarrow> state \<Rightarrow> state outcome" where
  "reactor_start sched s =
     (let s' = fold reactor_event sched s
      in if stop_requested (reactor (fst s')) then Return s' else Blocked)"

text \<open>
  The drain loop of \<open>run_thread\<close>, lines 223 to 228. \<open>arr count\<close> lists what other
  threads do during the iteration that starts with \<open>count\<close>.
\<close>

function drain_loop ::
  "(nat \<Rightarrow> api_call list) \<Rightarrow> work_item_t option \<Rightarrow> nat \<Rightarrow> state \<Rightarrow> work_item_t option \<times> nat \<times> state" where
  "drain_loop arr None count s = (None, count, s)"
| "drain_loop arr (Some it) count s =
     (if count \<le> WORK_QUEUE_CAPACITY then
        (case call it s of (t1, w1) \<Rightarrow>
           (case fold other_thread (arr count) (t1, free_block work_item_block w1) of (t2, w2) \<Rightarrow>
              (case fixed_queue_try_dequeue (work_queue t2) of (item', q) \<Rightarrow>
                 drain_loop arr item' (Suc count) (t2\<lparr>work_queue := q\<rparr>, w2))))
      else (Some it, count, s))"
  by pat_completeness auto
termination
  by (relation "measure (\<lambda>(arr, item, count, s). Suc WORK_QUEUE_CAPACITY - count)") auto

text \<open>Lines 221 to 233: the first \<open>try_dequeue\<close>, the loop, the diagnostic, the return.\<close>

definition run_thread_drain :: "(nat \<Rightarrow> api_call list) \<Rightarrow> state \<Rightarrow> state" where
  "run_thread_drain arr s =
     (case s of (t, w) \<Rightarrow>
        (case fixed_queue_try_dequeue (work_queue t) of (item0, q0) \<Rightarrow>
           (case drain_loop arr item0 0 (t\<lparr>work_queue := q0\<rparr>, w) of (item, count, t', w') \<Rightarrow>
              (t'\<lparr>pthread := exited\<rparr>,
               if count > WORK_QUEUE_CAPACITY
               then ALOGD ''run_thread growing event queue on shutdown.'' w' else w'))))"

text \<open>Lines 209 to 215: the work queue is registered with the reactor.\<close>

definition run_thread_enter :: "state \<Rightarrow> state" where
  "run_thread_enter s =
     (case s of (t, w) \<Rightarrow>
        (t\<lparr>pthread := in_reactor, reactor := reactor_register work_queue_object (reactor t)\<rparr>, w))"

text \<open>Lines 216 to 233, and lines 209 to 233.\<close>

definition reactor_then_drain :: "event list \<Rightarrow> (nat \<Rightarrow> api_call list) \<Rightarrow> state \<Rightarrow> state outcome" where
  "reactor_then_drain sched arr s =
     (case reactor_start sched s of
        Return s' \<Rightarrow> Return (run_thread_drain arr s')
      | Blocked \<Rightarrow> Blocked
      | Fault \<Rightarrow> Fault)"

definition run_thread_loop :: "event list \<Rightarrow> (nat \<Rightarrow> api_call list) \<Rightarrow> state \<Rightarrow> state outcome" where
  "run_thread_loop sched arr s = reactor_then_drain sched arr (run_thread_enter s)"

text \<open>
  \<open>run_thread\<close> as a whole: where \<open>prctl\<close> fails it returns at line 203, else it goes on
  into the reactor and the drain.
\<close>

definition run_thread ::
  "new_env \<Rightarrow> event list \<Rightarrow> (nat \<Rightarrow> api_call list) \<Rightarrow> start_arg \<Rightarrow> world \<Rightarrow> (start_arg \<times> world) outcome" where
  "run_thread env sched arr start w =
     (case run_thread_start env start w of (start', w') \<Rightarrow>
        (case prctl_fails env of
           Some _ \<Rightarrow> Return (start', w')
         | None \<Rightarrow>
             (case run_thread_loop sched arr (thread start', w') of
                Return (t, w'') \<Rightarrow> Return (start'\<lparr>thread := t\<rparr>, w'')
              | Blocked \<Rightarrow> Blocked
              | Fault \<Rightarrow> Fault)))"

subsection \<open>thread_free, thread_register, thread_unregister\<close>

text \<open>
  \<open>pthread_join\<close> returns when \<open>run_thread\<close> has returned: the worker does the rest of
  \<open>run_thread\<close> from where it is. Joining a thread that was never created is not
  something the file does.
\<close>

definition pthread_join :: "event list \<Rightarrow> (nat \<Rightarrow> api_call list) \<Rightarrow> state \<Rightarrow> state outcome" where
  "pthread_join sched arr s =
     (case pthread (fst s) of
        not_created \<Rightarrow> Fault
      | started \<Rightarrow> run_thread_loop sched arr s
      | in_reactor \<Rightarrow> reactor_then_drain sched arr s
      | exited \<Rightarrow> Return s)"

definition thread_free ::
  "event list \<Rightarrow> (nat \<Rightarrow> api_call list) \<Rightarrow> thread_t option \<Rightarrow> world \<Rightarrow> world outcome" where
  "thread_free sched arr handle w =
     (case handle of
        None \<Rightarrow> Return w
      | Some t \<Rightarrow>
          (case pthread_join sched arr (thread_stop (t, w)) of
             Return (t', w') \<Rightarrow>
               Return (free_block thread_block
                        (reactor_free (Some (reactor t'))
                          (fixed_queue_free (Some (work_queue t')) w')))
           | Blocked \<Rightarrow> Blocked
           | Fault \<Rightarrow> Fault))"

text \<open>
  \<open>thread_register\<close>: \<open>arg_ok\<close> says whether \<^verbatim>\<open>malloc\<close> gives the argument block. The
  source writes \<^verbatim>\<open>arg->thread\<close> without a test, so a null \<open>arg\<close> is a \<open>Fault\<close>. The
  result of \<open>thread_post\<close> is dropped.
\<close>

definition thread_register :: "bool \<Rightarrow> bool \<Rightarrow> reactor_object_t \<Rightarrow> state \<Rightarrow> state outcome" where
  "thread_register arg_ok item_ok obj s =
     (case s of (t, w) \<Rightarrow>
        (case malloc arg_ok reactor_register_arg_block w of
           (False, w1) \<Rightarrow> Fault
         | (True, w1) \<Rightarrow>
             (case thread_post item_ok register_with_reactor_cb_ptr (reactor_register_arg obj) (t, w1) of
                Return (_, s') \<Rightarrow> Return s'
              | Blocked \<Rightarrow> Blocked
              | Fault \<Rightarrow> Fault)))"

text \<open>
  While a caller waits on a semaphore the worker goes on: it enters its reactor if it
  has not yet, and takes the events of \<open>sched\<close>. A worker that has exited does nothing.
\<close>

definition worker_runs :: "event list \<Rightarrow> state \<Rightarrow> state" where
  "worker_runs sched s =
     (case pthread (fst s) of
        started \<Rightarrow> fold reactor_event sched (run_thread_enter s)
      | in_reactor \<Rightarrow> fold reactor_event sched s
      | _ \<Rightarrow> s)"

text \<open>
  \<open>thread_unregister\<close>: \<open>new_ok\<close> says whether \<open>semaphore_new\<close> succeeds. The function is
  \<^verbatim>\<open>void\<close>: what returns is the state alone.
\<close>

definition thread_unregister ::
  "bool \<Rightarrow> bool \<Rightarrow> event list \<Rightarrow> reactor_object_t \<Rightarrow> state \<Rightarrow> state outcome" where
  "thread_unregister new_ok item_ok sched obj s =
     (case s of (t, w) \<Rightarrow>
        (case semaphore_new new_ok 0 w of
           (None, w1) \<Rightarrow> Return (t, ALOGE ''thread_unregister unable to create unregistered semaphore.'' w1)
         | (Some sem, w1) \<Rightarrow>
             (case thread_post item_ok unregister_with_reactor_cb_ptr
                     (reactor_unregister_arg obj sem) (t, w1) of
                Return (_, s2) \<Rightarrow>
                  (case worker_runs sched s2 of (t3, w3) \<Rightarrow>
                     (case semaphore_wait sem w3 of
                        None \<Rightarrow> Blocked
                      | Some w4 \<Rightarrow> Return (t3, semaphore_free sem w4)))
              | Blocked \<Rightarrow> Blocked
              | Fault \<Rightarrow> Fault)))"

subsection \<open>Notions used in the proofs, and concrete inputs\<close>

definition growing_diag :: "log_level \<times> string" where
  "growing_diag = (LOG_DEBUG, ''run_thread growing event queue on shutdown.'')"

text \<open>
  \<open>advances s s'\<close>: from \<open>s\<close> to \<open>s'\<close> the callbacks \<open>done\<close> were run and the items \<open>new\<close>
  were accepted, and the queue of \<open>s\<close> followed by \<open>new\<close> is \<open>done\<close> followed by the queue
  of \<open>s'\<close>: nothing is run out of order, twice, or without having been queued. The name
  is kept, a requested stop stays requested, and the shutdown diagnostic is not logged.
\<close>

definition advances :: "state \<Rightarrow> state \<Rightarrow> bool" where
  "advances s s' \<longleftrightarrow>
     name (fst s') = name (fst s)
   \<and> (stop_requested (reactor (fst s)) \<longrightarrow> stop_requested (reactor (fst s')))
   \<and> count_list (logcat (snd s')) growing_diag = count_list (logcat (snd s)) growing_diag
   \<and> (\<exists>done new. ran (snd s') = ran (snd s) @ done
         \<and> posted (snd s') = posted (snd s) @ new
         \<and> items (work_queue (fst s)) @ new = done @ items (work_queue (fst s')))"

text \<open>The state with a dequeued item put back at the head of the queue.\<close>

definition unget :: "work_item_t option \<Rightarrow> state \<Rightarrow> state" where
  "unget item s =
     (case item of
        None \<Rightarrow> s
      | Some it \<Rightarrow>
          (case s of (t, w) \<Rightarrow> (t\<lparr>work_queue := (work_queue t)\<lparr>items := it # items (work_queue t)\<rparr>\<rparr>, w)))"

definition example_world :: world where
  "example_world = \<lparr>live = [], sems = [], logcat = [], posted = [], ran = []\<rparr>"

definition example_env :: new_env where
  "example_env = \<lparr>calloc_ok = True, reactor_ok = True, queue_ok = True, sem_ok = True,
                   spawn = thread_runs None, gettid = 4711\<rparr>"

definition example_name :: string where
  "example_name = ''bluetooth_worker_thread''"

definition example_thread :: thread_t where
  "example_thread = \<lparr>pthread = started, tid = 4711, name = ''bluetooth_worker'' @ [NUL],
     reactor = \<lparr>registered = [], stop_requested = False\<rparr>,
     work_queue = \<lparr>capacity = 128, items = []\<rparr>\<rparr>"

definition example_started :: world where
  "example_started = \<lparr>live = [fixed_queue_block, reactor_block, thread_block], sems = [0],
     logcat = [], posted = [], ran = []\<rparr>"

definition example_item :: "nat \<Rightarrow> work_item_t" where
  "example_item i = \<lparr>func = user_fn i, ctxt = user_context i\<rparr>"

text \<open>A thread in its reactor with a caller's object registered.\<close>

definition example_serving :: thread_t where
  "example_serving = example_thread\<lparr>pthread := in_reactor,
     reactor := \<lparr>registered = [work_queue_object, external_object 7], stop_requested = False\<rparr>\<rparr>"




definition example_full_stopped :: thread_t where
  "example_full_stopped = example_thread\<lparr>pthread := in_reactor,
     reactor := \<lparr>registered = [work_queue_object], stop_requested = True\<rparr>,
     work_queue := \<lparr>capacity = 128, items = replicate 128 (example_item 1)\<rparr>\<rparr>"

definition example_full_world :: world where
  "example_full_world = example_started\<lparr>live := replicate 128 work_item_block @ live example_started,
     posted := replicate 128 (example_item 1)\<rparr>"

definition example_late :: "nat \<Rightarrow> api_call list" where
  "example_late n = (if n < 2 then [Post True (user_fn 2) (user_context 2)] else [])"



section \<open>Properties\<close>

subsection \<open>Strings and the libraries\<close>

lemma drop_zeroed: "drop n (replicate (Suc n) x) = [x]"
  by (induction n) simp_all

lemma c_str_strncpy_zeroed:
  "c_str (strncpy (replicate (Suc n) NUL) src n) = take n (c_str src)"
proof -
  have nonul: "\<forall>c \<in> set (take n (c_str src)). c \<noteq> NUL"
    unfolding c_str_def by (auto dest: in_set_takeD set_takeWhileD)
  have "takeWhile (\<lambda>c. c \<noteq> NUL) (take n (c_str src) @ replicate (n - length (take n (c_str src))) NUL @ [NUL])
        = take n (c_str src) @ takeWhile (\<lambda>c. c \<noteq> NUL) (replicate (n - length (take n (c_str src))) NUL @ [NUL])"
    using nonul by (simp add: takeWhile_append2)
  also have "takeWhile (\<lambda>c. c \<noteq> NUL) (replicate (n - length (take n (c_str src))) NUL @ [NUL]) = []"
    by (cases "n - length (take n (c_str src))") simp_all
  finally show ?thesis
    by (simp only: strncpy_def Let_def c_str_def drop_zeroed append_Nil2)
qed

lemma length_strncpy_zeroed:
  "length (strncpy (replicate (Suc n) NUL) src n) = Suc n"
  by (simp add: strncpy_def Let_def)

lemma nth_strncpy_zeroed:
  "strncpy (replicate (Suc n) NUL) src n ! n = NUL"
proof -
  define s where "s = take n (c_str src)"
  have len: "length (s @ replicate (n - length s) NUL) = n"
    by (simp add: s_def)
  have "(s @ replicate (n - length s) NUL) @ [NUL] = strncpy (replicate (Suc n) NUL) src n"
    by (simp only: strncpy_def Let_def s_def drop_zeroed append_assoc)
  then show ?thesis
    using len by (metis nth_append_length)
qed

lemma errno_val_nonzero: "errno_val e \<noteq> 0"
  by (cases e) simp_all

lemmas lib_defs = malloc_def free_block_def ALOGE_def ALOGD_def reactor_new_def reactor_free_def
  fixed_queue_new_def fixed_queue_free_def semaphore_new_def semaphore_post_def semaphore_wait_def
  semaphore_free_def

subsection \<open>Creation\<close>

text \<open>
  What \<open>thread_new\<close> can do, for every name, every outcome of the four allocations and of
  \<open>pthread_create\<close>, and every outcome of the spawned thread's start. It does not return,
  which happens only where the four allocations have succeeded and no thread was started.
  Or it returns a thread that is fully set up: spawned and past its handshake, thread id
  captured, name copied, a fresh reactor and an empty queue of 128 places, the start
  semaphore already released. Or it returns null and the live allocations are those from
  before the call: control block, reactor, queue and semaphore have all been released.
\<close>

lemma thread_new_outcomes:
  "(thread_new n env nm w = Blocked
        \<and> calloc_ok env \<and> reactor_ok env \<and> queue_ok env \<and> sem_ok env \<and> spawn env = no_thread)
   \<or> (\<exists>t w'. thread_new n env nm w = Return (Some t, w')
        \<and> pthread t = started \<and> tid t = gettid env
        \<and> c_str (thread_name t) = take n (c_str nm)
        \<and> reactor t = \<lparr>registered = [], stop_requested = False\<rparr>
        \<and> work_queue t = \<lparr>capacity = WORK_QUEUE_CAPACITY, items = []\<rparr>
        \<and> live w' = fixed_queue_block # reactor_block # thread_block # live w)
   \<or> (\<exists>w'. thread_new n env nm w = Return (None, w') \<and> live w' = live w)"
  by (cases "spawn env")
     (auto simp: thread_new_def thread_new_error_def pthread_create_def prctl_fails_def
        run_thread_start_def lib_defs Let_def
        thread_name_def c_str_strncpy_zeroed errno_val_nonzero nth_append
        split: option.splits
        simp del: replicate_Suc)

text \<open>
  C5 does not hold of the code where \<open>pthread_create\<close> fails. \<open>thread_new\<close> tests the
  result of each of its four allocations, and not that of \<open>pthread_create\<close> at line 95:
  it goes on to wait at line 96 for a semaphore that only the new thread posts. So, for
  every name and every state before the call: \<open>thread_new\<close> fails to return exactly
  when the four allocations have succeeded and \<open>pthread_create\<close> has started no thread.
  At the wait the control block, the reactor, the queue and the semaphore are all
  allocated, \<open>pthread_create\<close> has changed nothing, and the counter of the semaphore is 0:
  the call returns neither a thread nor a failure, and releases nothing. The last
  conjunct is the case of the example name in the empty world.
\<close>

theorem thread_new_waits_for_a_thread_never_started:
  "(thread_new n env nm w = Blocked
      \<longleftrightarrow> (calloc_ok env \<and> reactor_ok env \<and> queue_ok env \<and> sem_ok env \<and> spawn env = no_thread))
   \<and> live (snd (semaphore_new True 0 (snd (fixed_queue_new True WORK_QUEUE_CAPACITY
              (snd (reactor_new True (snd (malloc True thread_block w))))))))
       = semaphore_block # fixed_queue_block # reactor_block # thread_block # live w
   \<and> fst (semaphore_new True 0 (snd (fixed_queue_new True WORK_QUEUE_CAPACITY
              (snd (reactor_new True (snd (malloc True thread_block w)))))))
       = Some (length (sems w))
   \<and> pthread_create (env\<lparr>spawn := no_thread\<rparr>) start
         (snd (semaphore_new True 0 (snd (fixed_queue_new True WORK_QUEUE_CAPACITY
              (snd (reactor_new True (snd (malloc True thread_block w))))))))
       = (start, snd (semaphore_new True 0 (snd (fixed_queue_new True WORK_QUEUE_CAPACITY
              (snd (reactor_new True (snd (malloc True thread_block w))))))))
   \<and> semaphore_wait (length (sems w))
         (snd (semaphore_new True 0 (snd (fixed_queue_new True WORK_QUEUE_CAPACITY
              (snd (reactor_new True (snd (malloc True thread_block w))))))))
       = None
   \<and> thread_new 16 (example_env\<lparr>spawn := no_thread\<rparr>) example_name example_world = Blocked"
proof -
  have "thread_new n env nm w = Blocked
      \<longleftrightarrow> (calloc_ok env \<and> reactor_ok env \<and> queue_ok env \<and> sem_ok env \<and> spawn env = no_thread)"
    by (cases "spawn env")
       (auto simp: thread_new_def thread_new_error_def pthread_create_def prctl_fails_def
          run_thread_start_def lib_defs Let_def nth_append
          split: option.splits if_splits)
  moreover have "thread_new 16 (example_env\<lparr>spawn := no_thread\<rparr>) example_name example_world = Blocked"
    by (simp add: thread_new_def pthread_create_def lib_defs Let_def example_env_def example_world_def)
  ultimately show ?thesis
    by (simp add: pthread_create_def lib_defs nth_append)
qed

text \<open>
  C6. When \<open>prctl\<close> fails in the spawned thread, the thread stores the error number, which
  is not 0, in the start argument, posts the start semaphore and returns: for every
  schedule \<open>run_thread\<close> ends at that point, with the reactor and the queue untouched and
  no callback run. The creator, whose four allocations had succeeded, then finds the
  error and \<open>thread_new\<close> returns null: nothing is left allocated, and what remains is
  the spawned thread's line in the log and the counter of the released semaphore.
\<close>

theorem init_failure_reported:
  assumes "prctl_fails env = Some e"
      and "calloc_ok env" and "reactor_ok env" and "queue_ok env" and "sem_ok env"
  shows "error (fst (run_thread_start env start w)) = errno_val e
       \<and> error (fst (run_thread_start env start w)) \<noteq> 0
       \<and> sems (snd (run_thread_start env start w))
           = (sems w)[start_sem start := Suc (sems w ! start_sem start)]
       \<and> run_thread env sched arr start w = Return (run_thread_start env start w)
       \<and> pthread (thread (fst (run_thread_start env start w))) = exited
       \<and> reactor (thread (fst (run_thread_start env start w))) = reactor (thread start)
       \<and> work_queue (thread (fst (run_thread_start env start w))) = work_queue (thread start)
       \<and> ran (snd (run_thread_start env start w)) = ran w
       \<and> thread_new n env nm w
           = Return (None, w\<lparr>sems := sems w @ [0],
                              logcat := logcat w @ [(LOG_ERROR, ''run_thread unable to set thread name'')]\<rparr>)"
proof -
  from assms(1) have sp: "spawn env = thread_runs (Some e)"
    by (cases "spawn env") (simp_all add: prctl_fails_def)
  with assms show ?thesis
    by (auto simp: run_thread_def thread_new_def thread_new_error_def pthread_create_def
          run_thread_start_def lib_defs Let_def errno_val_nonzero nth_append)
qed

theorem init_failure_reported_witness:
  "prctl_fails (example_env\<lparr>spawn := thread_runs (Some EFAULT)\<rparr>) = Some EFAULT
   \<and> calloc_ok (example_env\<lparr>spawn := thread_runs (Some EFAULT)\<rparr>)
   \<and> reactor_ok (example_env\<lparr>spawn := thread_runs (Some EFAULT)\<rparr>)
   \<and> queue_ok (example_env\<lparr>spawn := thread_runs (Some EFAULT)\<rparr>)
   \<and> sem_ok (example_env\<lparr>spawn := thread_runs (Some EFAULT)\<rparr>)
   \<and> thread_new 16 (example_env\<lparr>spawn := thread_runs (Some EFAULT)\<rparr>) example_name example_world
       = Return (None, example_world\<lparr>sems := [0],
                         logcat := [(LOG_ERROR, ''run_thread unable to set thread name'')]\<rparr>)"
  using init_failure_reported [where env = "example_env\<lparr>spawn := thread_runs (Some EFAULT)\<rparr>" and e = EFAULT
      and n = 16 and nm = example_name and w = example_world]
  by (simp add: example_env_def example_world_def prctl_fails_def)

subsection \<open>Posting and registering\<close>

text \<open>
  C7. \<open>thread_post\<close> returns false exactly when the work item cannot be allocated, and
  then changes nothing but the log. Otherwise, once the queue has room, it returns true
  and the only changes are the item with that function and that context at the tail of
  the queue, and the block that holds it; while the queue is full the call waits.
\<close>

theorem thread_post_result:
  "thread_post item_ok f c (t, w) =
     (if \<not> item_ok
      then Return (False, t, w\<lparr>logcat := logcat w @ [(LOG_ERROR, ''thread_post unable to allocate memory'')]\<rparr>)
      else if length (items (work_queue t)) < capacity (work_queue t)
      then Return (True,
             t\<lparr>work_queue := (work_queue t)\<lparr>items := items (work_queue t) @ [\<lparr>func = f, ctxt = c\<rparr>]\<rparr>\<rparr>,
             w\<lparr>live := work_item_block # live w, posted := posted w @ [\<lparr>func = f, ctxt = c\<rparr>]\<rparr>)
      else Blocked)
   \<and> ((\<exists>s'. thread_post item_ok f c (t, w) = Return (False, s')) \<longleftrightarrow> \<not> item_ok)"
  by (auto simp: thread_post_def lib_defs fixed_queue_enqueue_def)

text \<open>
  C10. \<open>thread_register\<close> has no failure result. When the argument block cannot be
  allocated it writes through the null pointer. When the block is allocated and the
  work item is not, it returns as it does on success: the queue and the reactor are
  as before, so the request is lost, and the argument block stays allocated. Only the
  callback releases that block, when it runs.
\<close>

theorem thread_register_fails_silently:
  "thread_register False item_ok obj (t, w) = Fault
   \<and> thread_register True False obj (t, w)
       = Return (t, w\<lparr>live := reactor_register_arg_block # live w,
                      logcat := logcat w @ [(LOG_ERROR, ''thread_post unable to allocate memory'')]\<rparr>)
   \<and> thread_register True True obj (t, w)
       = (if length (items (work_queue t)) < capacity (work_queue t)
          then Return (t\<lparr>work_queue := (work_queue t)\<lparr>items := items (work_queue t)
                          @ [\<lparr>func = register_with_reactor_cb_ptr, ctxt = reactor_register_arg obj\<rparr>]\<rparr>\<rparr>,
                       w\<lparr>live := work_item_block # reactor_register_arg_block # live w,
                         posted := posted w @ [\<lparr>func = register_with_reactor_cb_ptr, ctxt = reactor_register_arg obj\<rparr>]\<rparr>)
          else Blocked)
   \<and> call \<lparr>func = register_with_reactor_cb_ptr, ctxt = reactor_register_arg obj\<rparr> (t, w)
       = (t\<lparr>reactor := (reactor t)\<lparr>registered := registered (reactor t) @ [obj]\<rparr>\<rparr>,
          w\<lparr>ran := ran w @ [\<lparr>func = register_with_reactor_cb_ptr, ctxt = reactor_register_arg obj\<rparr>],
            live := remove1 reactor_register_arg_block (live w)\<rparr>)"
  by (auto simp: thread_register_def thread_post_def lib_defs fixed_queue_enqueue_def call_def
        register_with_reactor_cb_def thread_get_reactor_def reactor_register_def)

subsection \<open>Unregistering\<close>

text \<open>
  C2, as the code has it. When \<open>semaphore_new\<close> fails, \<open>thread_unregister\<close> writes one
  line to the log and returns. It is \<^verbatim>\<open>void\<close>: the caller receives nothing. No
  request is posted, and the thread, its queue and the reactor's registrations are as
  before, whatever the worker would have done meanwhile.
\<close>

theorem thread_unregister_no_semaphore:
  "thread_unregister False item_ok sched obj (t, w)
     = Return (t, w\<lparr>logcat := logcat w @ [(LOG_ERROR, ''thread_unregister unable to create unregistered semaphore.'')]\<rparr>)"
  by (simp add: thread_unregister_def lib_defs)

text \<open>
  C2 as stated asks for a failure result. On a thread that serves object 7, the call whose
  semaphore cannot be allocated returns as the call that succeeds does; object 7 stays
  registered after the first and is gone after the second.
\<close>

theorem unregister_failure_returns_as_success:
  "thread_unregister False True [Ready] (external_object 7) (example_serving, example_started)
     = Return (example_serving,
               example_started\<lparr>logcat := [(LOG_ERROR, ''thread_unregister unable to create unregistered semaphore.'')]\<rparr>)
   \<and> thread_unregister True True [Ready] (external_object 7) (example_serving, example_started)
     = Return (example_serving\<lparr>reactor := \<lparr>registered = [work_queue_object], stop_requested = False\<rparr>\<rparr>,
               example_started\<lparr>sems := [0, 0],
                 posted := [\<lparr>func = unregister_with_reactor_cb_ptr, ctxt = reactor_unregister_arg (external_object 7) 1\<rparr>],
                 ran := [\<lparr>func = unregister_with_reactor_cb_ptr, ctxt = reactor_unregister_arg (external_object 7) 1\<rparr>]\<rparr>)"
  by (simp add: thread_unregister_def lib_defs thread_post_def fixed_queue_enqueue_def worker_runs_def
        reactor_event_def work_queue_read_cb_def fixed_queue_dequeue_def call_def
        unregister_with_reactor_cb_def thread_get_reactor_def reactor_unregister_def
        example_serving_def example_thread_def example_started_def)

subsection \<open>How the state advances\<close>

lemma advances_refl: "advances s s"
  by (simp add: advances_def)

lemma advances_trans:
  assumes "advances s1 s2" and "advances s2 s3"
  shows "advances s1 s3"
proof -
  from assms(1) obtain d1 n1 where
    a: "ran (snd s2) = ran (snd s1) @ d1" "posted (snd s2) = posted (snd s1) @ n1"
       "items (work_queue (fst s1)) @ n1 = d1 @ items (work_queue (fst s2))"
    unfolding advances_def by blast
  from assms(2) obtain d2 n2 where
    b: "ran (snd s3) = ran (snd s2) @ d2" "posted (snd s3) = posted (snd s2) @ n2"
       "items (work_queue (fst s2)) @ n2 = d2 @ items (work_queue (fst s3))"
    unfolding advances_def by blast
  have "items (work_queue (fst s1)) @ (n1 @ n2) = (d1 @ d2) @ items (work_queue (fst s3))"
    using a(3) b(3) by (metis append.assoc)
  moreover have "ran (snd s3) = ran (snd s1) @ (d1 @ d2)" using a(1) b(1) by simp
  moreover have "posted (snd s3) = posted (snd s1) @ (n1 @ n2)" using a(2) b(2) by simp
  ultimately have "\<exists>done new. ran (snd s3) = ran (snd s1) @ done
         \<and> posted (snd s3) = posted (snd s1) @ new
         \<and> items (work_queue (fst s1)) @ new = done @ items (work_queue (fst s3))"
    by blast
  then show ?thesis
    using assms unfolding advances_def by simp
qed


lemma advances_name: "advances s s' \<Longrightarrow> name (fst s') = name (fst s)"
  by (simp add: advances_def)

lemma advances_diag:
  "advances s s' \<Longrightarrow> count_list (logcat (snd s')) growing_diag = count_list (logcat (snd s)) growing_diag"
  by (simp add: advances_def)




lemma call_facts:
  "call it s = s' \<Longrightarrow>
     ran (snd s') = ran (snd s) @ [it] \<and> posted (snd s') = posted (snd s)
   \<and> work_queue (fst s') = work_queue (fst s) \<and> name (fst s') = name (fst s)
   \<and> pthread (fst s') = pthread (fst s)
   \<and> stop_requested (reactor (fst s')) = stop_requested (reactor (fst s))
   \<and> logcat (snd s') = logcat (snd s)"
  by (cases s)
     (auto simp: call_def register_with_reactor_cb_def unregister_with_reactor_cb_def
        thread_get_reactor_def reactor_register_def reactor_unregister_def lib_defs Let_def
        split: thread_fn.splits context_t.splits)

lemma thread_post_facts:
  assumes "thread_post item_ok f c s = Return (b, s')"
  shows "advances s s'" and "pthread (fst s') = pthread (fst s)" and "ran (snd s') = ran (snd s)"
    and "reactor (fst s') = reactor (fst s)"
  using assms
  by (cases s; auto simp: thread_post_def lib_defs fixed_queue_enqueue_def advances_def growing_diag_def
        split: if_splits)+

lemma thread_stop_facts:
  "advances s (thread_stop s)" "pthread (fst (thread_stop s)) = pthread (fst s)"
  "stop_requested (reactor (fst (thread_stop s)))" "ran (snd (thread_stop s)) = ran (snd s)"
  "items (work_queue (fst (thread_stop s))) = items (work_queue (fst s))"
  by (cases s; simp add: thread_stop_def reactor_stop_def advances_def)+

lemma other_thread_facts:
  "advances s (other_thread a s)" "pthread (fst (other_thread a s)) = pthread (fst s)"
  "registered (reactor (fst (other_thread a s))) = registered (reactor (fst s))"
  "ran (snd (other_thread a s)) = ran (snd s)"
proof -
  show "ran (snd (other_thread a s)) = ran (snd s)"
    by (cases a) (auto simp: thread_stop_facts thread_post_facts(3) split: outcome.splits)
  show "advances s (other_thread a s)"
    by (cases a) (auto simp: thread_stop_facts advances_refl thread_post_facts(1) split: outcome.splits)
  show "pthread (fst (other_thread a s)) = pthread (fst s)"
    by (cases a) (auto simp: thread_stop_facts thread_post_facts(2) split: outcome.splits)
  show "registered (reactor (fst (other_thread a s))) = registered (reactor (fst s))"
    by (cases a; cases s) (auto simp: thread_stop_def reactor_stop_def thread_post_facts(4) split: outcome.splits)
qed

lemma fold_other_thread_facts:
  "advances s (fold other_thread as s)" "pthread (fst (fold other_thread as s)) = pthread (fst s)"
  "ran (snd (fold other_thread as s)) = ran (snd s)"
proof -
  show "ran (snd (fold other_thread as s)) = ran (snd s)"
    by (induction as arbitrary: s) (auto simp: other_thread_facts(4))
  show "advances s (fold other_thread as s)"
  proof (induction as arbitrary: s)
    case Nil
    show ?case by (simp add: advances_refl)
  next
    case (Cons a as)
    have "advances s (fold other_thread as (other_thread a s))"
      using other_thread_facts(1) Cons.IH by (rule advances_trans)
    then show ?case by simp
  qed
  show "pthread (fst (fold other_thread as s)) = pthread (fst s)"
    by (induction as arbitrary: s) (auto simp: other_thread_facts(2))
qed

lemma work_queue_read_cb_facts:
  assumes "work_queue_read_cb s = Some s'"
  shows "advances s s'" and "pthread (fst s') = pthread (fst s)"
proof -
  obtain t w where s: "s = (t, w)" by (cases s)
  from assms s obtain it rest where q: "items (work_queue t) = it # rest"
    and s': "s' = (fst (call it (t\<lparr>work_queue := (work_queue t)\<lparr>items := rest\<rparr>\<rparr>, w)),
                   free_block work_item_block (snd (call it (t\<lparr>work_queue := (work_queue t)\<lparr>items := rest\<rparr>\<rparr>, w))))"
    by (auto simp: work_queue_read_cb_def fixed_queue_dequeue_def split: list.splits prod.splits)
  note cf = call_facts[OF refl, of it "(t\<lparr>work_queue := (work_queue t)\<lparr>items := rest\<rparr>\<rparr>, w)"]
  show "advances s s'"
    unfolding advances_def using cf q by (simp add: s s' free_block_def)
  show "pthread (fst s') = pthread (fst s)"
    using cf by (simp add: s s')
qed

lemma reactor_event_facts:
  "advances s (reactor_event e s)" "pthread (fst (reactor_event e s)) = pthread (fst s)"
  by (auto simp: reactor_event_def other_thread_facts advances_refl work_queue_read_cb_facts
        split: event.splits option.splits)

lemma fold_reactor_event_facts:
  "advances s (fold reactor_event es s)" "pthread (fst (fold reactor_event es s)) = pthread (fst s)"
proof -
  show "advances s (fold reactor_event es s)"
  proof (induction es arbitrary: s)
    case Nil
    show ?case by (simp add: advances_refl)
  next
    case (Cons e es)
    have "advances s (fold reactor_event es (reactor_event e s))"
      using reactor_event_facts(1) Cons.IH by (rule advances_trans)
    then show ?case by simp
  qed
  show "pthread (fst (fold reactor_event es s)) = pthread (fst s)"
    by (induction es arbitrary: s) (auto simp: reactor_event_facts(2))
qed

lemma run_thread_enter_facts:
  "advances s (run_thread_enter s)" "pthread (fst (run_thread_enter s)) = in_reactor"
  by (cases s; simp add: run_thread_enter_def reactor_register_def advances_def)+

lemma worker_runs_advances: "advances s (worker_runs sched s)"
proof (cases "pthread (fst s)")
  case started
  have "advances s (fold reactor_event sched (run_thread_enter s))"
    using run_thread_enter_facts(1) fold_reactor_event_facts(1) by (rule advances_trans)
  with started show ?thesis by (simp add: worker_runs_def)
qed (simp_all add: worker_runs_def advances_refl fold_reactor_event_facts(1))

lemma try_dequeue_unget:
  "fixed_queue_try_dequeue (work_queue t) = (item, q) \<Longrightarrow> unget item (t\<lparr>work_queue := q\<rparr>, w) = (t, w)"
  by (cases t; cases "work_queue t")
     (auto simp: fixed_queue_try_dequeue_def unget_def split: list.splits)

lemma try_dequeue_none:
  "fixed_queue_try_dequeue q = (None, q') \<Longrightarrow> items q' = []"
  by (auto simp: fixed_queue_try_dequeue_def split: list.splits)

lemma unget_proj:
  "ran (snd (unget item s)) = ran (snd s)" "posted (snd (unget item s)) = posted (snd s)"
  "name (fst (unget item s)) = name (fst s)" "logcat (snd (unget item s)) = logcat (snd s)"
  "pthread (fst (unget item s)) = pthread (fst s)"
  "stop_requested (reactor (fst (unget item s))) = stop_requested (reactor (fst s))"
  "items (work_queue (fst (unget item s))) = (case item of None \<Rightarrow> [] | Some it \<Rightarrow> [it]) @ items (work_queue (fst s))"
  by (cases s; cases item; simp add: unget_def)+

lemma call_advances: "advances (unget (Some it) s) (call it s)"
  using call_facts[OF refl, of it s]
  by (simp add: advances_def unget_proj)

lemma free_block_advances: "advances (t, w) (t, free_block a w)"
  by (simp add: advances_def free_block_def)

lemma advances_all_run:
  assumes "advances s (unget item' s1)"
      and "item' = None \<longrightarrow> items (work_queue (fst s1)) = []"
      and "item' \<noteq> None \<longrightarrow> length (ran (snd s)) + Suc WORK_QUEUE_CAPACITY \<le> length (ran (snd s1))"
      and "length (items (work_queue (fst s))) \<le> WORK_QUEUE_CAPACITY"
  shows "\<exists>rest. ran (snd s1) = ran (snd s) @ items (work_queue (fst s)) @ rest"
proof -
  from assms(1) obtain dn nw where
    d1: "ran (snd s1) = ran (snd s) @ dn"
    and d3: "items (work_queue (fst s)) @ nw = dn @ items (work_queue (fst (unget item' s1)))"
    unfolding advances_def by (auto simp: unget_proj)
  have "\<exists>rest. dn = items (work_queue (fst s)) @ rest"
  proof (cases item')
    case None
    with assms(2) d3 have "dn = items (work_queue (fst s)) @ nw" by (simp add: unget_proj)
    then show ?thesis by blast
  next
    case (Some it)
    with assms(3) d1 have "length (items (work_queue (fst s))) \<le> length dn"
      using assms(4) by simp
    with d3 show ?thesis
      by (metis append_eq_append_conv_if append_take_drop_id)
  qed
  with d1 show ?thesis by auto
qed

subsection \<open>The drain loop\<close>

lemma drain_loop_facts:
  assumes "drain_loop arr item count s = (item', count', s')"
      and "count \<le> Suc WORK_QUEUE_CAPACITY"
      and "item = None \<longrightarrow> items (work_queue (fst s)) = []"
  shows "advances (unget item s) (unget item' s')
       \<and> count \<le> count' \<and> count' \<le> Suc WORK_QUEUE_CAPACITY
       \<and> length (ran (snd s')) = length (ran (snd s)) + (count' - count)
       \<and> (item' = None \<longrightarrow> items (work_queue (fst s')) = [])
       \<and> (item' \<noteq> None \<longrightarrow> count' = Suc WORK_QUEUE_CAPACITY)
       \<and> pthread (fst s') = pthread (fst s)"
  using assms
proof (induction arr item count s arbitrary: item' count' s' rule: drain_loop.induct)
  case (1 arr count s)
  then show ?case by (auto simp: advances_refl)
next
  case (2 arr it count s)
  show ?case
  proof (cases "count \<le> WORK_QUEUE_CAPACITY")
    case False
    with "2.prems" show ?thesis by (auto simp: advances_refl)
  next
    case True
    obtain t1 w1 where c: "call it s = (t1, w1)" by (cases "call it s")
    obtain t2 w2 where f: "fold other_thread (arr count) (t1, free_block work_item_block w1) = (t2, w2)"
      by (cases "fold other_thread (arr count) (t1, free_block work_item_block w1)")
    obtain i q where d: "fixed_queue_try_dequeue (work_queue t2) = (i, q)"
      by (cases "fixed_queue_try_dequeue (work_queue t2)")
    have rec: "drain_loop arr i (Suc count) (t2\<lparr>work_queue := q\<rparr>, w2) = (item', count', s')"
      using "2.prems"(1) True c f d by simp
    have empty: "i = None \<longrightarrow> items (work_queue (fst (t2\<lparr>work_queue := q\<rparr>, w2))) = []"
      using d by (auto dest: try_dequeue_none)
    have ih: "advances (unget i (t2\<lparr>work_queue := q\<rparr>, w2)) (unget item' s')
       \<and> Suc count \<le> count' \<and> count' \<le> Suc WORK_QUEUE_CAPACITY
       \<and> length (ran (snd s')) = length (ran (snd (t2\<lparr>work_queue := q\<rparr>, w2))) + (count' - Suc count)
       \<and> (item' = None \<longrightarrow> items (work_queue (fst s')) = [])
       \<and> (item' \<noteq> None \<longrightarrow> count' = Suc WORK_QUEUE_CAPACITY)
       \<and> pthread (fst s') = pthread (fst (t2\<lparr>work_queue := q\<rparr>, w2))"
      using "2.IH"[OF True c[symmetric] f[symmetric] d[symmetric] rec _ empty] True by simp
    have a1: "advances (unget (Some it) s) (t1, w1)"
      using call_advances[of it s] c by simp
    have a2: "advances (t1, w1) (t1, free_block work_item_block w1)"
      by (rule free_block_advances)
    have a3: "advances (t1, free_block work_item_block w1) (t2, w2)"
      using fold_other_thread_facts(1)[of "(t1, free_block work_item_block w1)" "arr count"] f by simp
    have a4: "unget i (t2\<lparr>work_queue := q\<rparr>, w2) = (t2, w2)"
      using d by (rule try_dequeue_unget)
    have adv: "advances (unget (Some it) s) (unget item' s')"
      using a1 a2 a3 ih a4 by (metis advances_trans)
    have ran1: "length (ran w1) = Suc (length (ran (snd s)))"
      using call_facts[OF c] by simp
    have ran2: "length (ran w2) = length (ran w1)"
      using fold_other_thread_facts(3)[of "arr count" "(t1, free_block work_item_block w1)"] f
      by (simp add: free_block_def)
    have pt: "pthread t2 = pthread (fst s)"
      using fold_other_thread_facts(2)[of "arr count" "(t1, free_block work_item_block w1)"] f
        call_facts[OF c] by simp
    show ?thesis
      using adv ih ran1 ran2 pt by auto
  qed
qed

lemma drain_loop_quiet:
  assumes "drain_loop arr item count s = (item', count', s')" and "\<forall>n\<ge>count. arr n = []"
  shows "posted (snd s') = posted (snd s)"
  using assms
proof (induction arr item count s arbitrary: item' count' s' rule: drain_loop.induct)
  case (1 arr count s)
  then show ?case by simp
next
  case (2 arr it count s)
  show ?case
  proof (cases "count \<le> WORK_QUEUE_CAPACITY")
    case False
    with "2.prems" show ?thesis by simp
  next
    case True
    obtain t1 w1 where c: "call it s = (t1, w1)" by (cases "call it s")
    have q: "arr count = []" using "2.prems"(2) by simp
    obtain i q where d: "fixed_queue_try_dequeue (work_queue t1) = (i, q)"
      by (cases "fixed_queue_try_dequeue (work_queue t1)")
    have f: "fold other_thread (arr count) (t1, free_block work_item_block w1) = (t1, free_block work_item_block w1)"
      by (simp add: q)
    have rec: "drain_loop arr i (Suc count) (t1\<lparr>work_queue := q\<rparr>, free_block work_item_block w1) = (item', count', s')"
      using "2.prems"(1) True c q d by simp
    have "posted (snd s') = posted (snd (t1\<lparr>work_queue := q\<rparr>, free_block work_item_block w1))"
      using "2.IH"[OF True c[symmetric] f[symmetric] d[symmetric] rec] "2.prems"(2) by simp
    then show ?thesis
      using call_facts[OF c] by (simp add: free_block_def)
  qed
qed

lemma drain_loop_step:
  "count \<le> WORK_QUEUE_CAPACITY \<Longrightarrow>
   drain_loop arr (Some it) count s =
     (case call it s of (t1, w1) \<Rightarrow>
        (case fold other_thread (arr count) (t1, free_block work_item_block w1) of (t2, w2) \<Rightarrow>
           (case fixed_queue_try_dequeue (work_queue t2) of (item', q) \<Rightarrow>
              drain_loop arr item' (Suc count) (t2\<lparr>work_queue := q\<rparr>, w2))))"
  by simp

text \<open>What the drain leaves: the state before the diagnostic, with the item it holds.\<close>

lemma run_thread_drain_facts:
  obtains s1 item' count' where
    "run_thread_drain arr s
       = ((fst s1)\<lparr>pthread := exited\<rparr>,
          if count' > WORK_QUEUE_CAPACITY
          then ALOGD ''run_thread growing event queue on shutdown.'' (snd s1) else snd s1)"
    "advances s (unget item' s1)"
    "count' \<le> Suc WORK_QUEUE_CAPACITY"
    "length (ran (snd s1)) = length (ran (snd s)) + count'"
    "item' = None \<longrightarrow> items (work_queue (fst s1)) = []"
    "item' \<noteq> None \<longrightarrow> count' = Suc WORK_QUEUE_CAPACITY"
proof -
  obtain t w where s: "s = (t, w)" by (cases s)
  obtain item0 q0 where d: "fixed_queue_try_dequeue (work_queue t) = (item0, q0)"
    by (cases "fixed_queue_try_dequeue (work_queue t)")
  obtain item' count' s1 where l: "drain_loop arr item0 0 (t\<lparr>work_queue := q0\<rparr>, w) = (item', count', s1)"
    by (cases "drain_loop arr item0 0 (t\<lparr>work_queue := q0\<rparr>, w)")
  have empty: "item0 = None \<longrightarrow> items (work_queue (fst (t\<lparr>work_queue := q0\<rparr>, w))) = []"
    using d by (auto dest: try_dequeue_none)
  note f = drain_loop_facts[OF l _ empty]
  have u: "unget item0 (t\<lparr>work_queue := q0\<rparr>, w) = s"
    using d s by (simp add: try_dequeue_unget)
  have r: "run_thread_drain arr s
       = ((fst s1)\<lparr>pthread := exited\<rparr>,
          if count' > WORK_QUEUE_CAPACITY
          then ALOGD ''run_thread growing event queue on shutdown.'' (snd s1) else snd s1)"
    using d l s by (cases s1) (simp add: run_thread_drain_def)
  have "advances s (unget item' s1)" "count' \<le> Suc WORK_QUEUE_CAPACITY"
    "length (ran (snd s1)) = length (ran (snd s)) + count'"
    "item' = None \<longrightarrow> items (work_queue (fst s1)) = []"
    "item' \<noteq> None \<longrightarrow> count' = Suc WORK_QUEUE_CAPACITY"
    using f u s by simp_all
  with r show thesis
    by (rule that)
qed

lemma ALOGD_growing:
  "count_list (logcat (ALOGD ''run_thread growing event queue on shutdown.'' w)) growing_diag
     = Suc (count_list (logcat w) growing_diag)"
  by (simp add: ALOGD_def growing_diag_def)


lemma run_thread_drain_name: "name (fst (run_thread_drain arr s)) = name (fst s)"
proof -
  obtain s1 item' count' where
    r: "run_thread_drain arr s
       = ((fst s1)\<lparr>pthread := exited\<rparr>,
          if count' > WORK_QUEUE_CAPACITY
          then ALOGD ''run_thread growing event queue on shutdown.'' (snd s1) else snd s1)"
    and a: "advances s (unget item' s1)"
    by (rule run_thread_drain_facts)
  show ?thesis
    using advances_name[OF a] by (simp add: r unget_proj)
qed

subsection \<open>Joining the worker\<close>

lemma reactor_then_drain_Return:
  "reactor_then_drain sched arr s = Return s' \<Longrightarrow> s' = run_thread_drain arr (fold reactor_event sched s)"
  by (auto simp: reactor_then_drain_def reactor_start_def Let_def split: if_splits outcome.splits)


lemma pthread_join_Return:
  assumes "pthread_join sched arr s = Return s'"
  shows "s' = s \<or> (\<exists>s2. advances s s2 \<and> s' = run_thread_drain arr s2)"
proof (cases "pthread (fst s)")
  case not_created
  with assms show ?thesis by (simp add: pthread_join_def)
next
  case started
  with assms have "s' = run_thread_drain arr (fold reactor_event sched (run_thread_enter s))"
    by (simp add: pthread_join_def run_thread_loop_def reactor_then_drain_Return)
  moreover have "advances s (fold reactor_event sched (run_thread_enter s))"
    using run_thread_enter_facts(1) fold_reactor_event_facts(1) by (rule advances_trans)
  ultimately show ?thesis by blast
next
  case in_reactor
  with assms have "s' = run_thread_drain arr (fold reactor_event sched s)"
    by (simp add: pthread_join_def reactor_then_drain_Return)
  then show ?thesis
    using fold_reactor_event_facts(1) by blast
next
  case exited
  with assms show ?thesis by (simp add: pthread_join_def)
qed



lemma pthread_join_name:
  assumes "pthread_join sched arr s = Return s'"
  shows "name (fst s') = name (fst s)"
  using pthread_join_Return[OF assms]
proof
  assume "s' = s"
  then show ?thesis by simp
next
  assume "\<exists>s2. advances s s2 \<and> s' = run_thread_drain arr s2"
  then obtain s2 where a: "advances s s2" and s': "s' = run_thread_drain arr s2" by blast
  show ?thesis
    using advances_name[OF a] by (simp add: s' run_thread_drain_name)
qed











subsection \<open>The concrete inputs\<close>

lemma example_thread_new: "thread_new 16 example_env example_name example_world = Return (Some example_thread, example_started)"
  by (simp add: thread_new_def thread_new_error_def pthread_create_def prctl_fails_def
      run_thread_start_def lib_defs Let_def
      example_env_def example_name_def example_world_def example_thread_def example_started_def
      strncpy_def c_str_def NUL_def WORK_QUEUE_CAPACITY_def)



lemma replicate_128: "replicate 128 x = x # x # x # replicate 125 x"
proof -
  have "(128::nat) = Suc (Suc (Suc 125))" by simp
  then show ?thesis by (simp only: replicate_Suc)
qed

lemma example_two_rounds:
  "run_thread_drain example_late (example_full_stopped, example_full_world)
     = (case drain_loop example_late (Some (example_item 1)) (Suc (Suc 0))
              (example_full_stopped\<lparr>work_queue := \<lparr>capacity = 128,
                   items = replicate 125 (example_item 1) @ [example_item 2, example_item 2]\<rparr>\<rparr>,
               example_full_world\<lparr>posted := replicate 128 (example_item 1) @ [example_item 2, example_item 2],
                   ran := [example_item 1, example_item 1]\<rparr>) of
          (item, count, t', w') \<Rightarrow>
            (t'\<lparr>pthread := exited\<rparr>,
             if count > WORK_QUEUE_CAPACITY
             then ALOGD ''run_thread growing event queue on shutdown.'' w' else w'))"
proof -
  have q: "items (work_queue example_full_stopped) = example_item 1 # example_item 1 # example_item 1 # replicate 125 (example_item 1)"
    by (simp add: example_full_stopped_def replicate_128)
  have cap: "0 \<le> WORK_QUEUE_CAPACITY" "Suc 0 \<le> WORK_QUEUE_CAPACITY"
    by (simp_all add: WORK_QUEUE_CAPACITY_def)
  show ?thesis
    by (simp add: run_thread_drain_def fixed_queue_try_dequeue_def q call_def example_item_def
        example_late_def thread_post_def malloc_def free_block_def fixed_queue_enqueue_def
        example_full_world_def example_started_def replicate_128
        drain_loop_step[OF cap(1)] drain_loop_step[OF cap(2)]
        example_full_stopped_def example_thread_def
        del: drain_loop.simps)
qed

text \<open>
  The full queue with two late posts: all 130 posts have returned true, the thread
  exits with the queue empty, and 129 callbacks have run. The 130th item was taken
  from the queue by the last \<open>try_dequeue\<close> of the loop and never called.
\<close>

lemma example_overflow:
  "length (items (work_queue example_full_stopped)) = WORK_QUEUE_CAPACITY
   \<and> posted example_full_world = ran example_full_world @ items (work_queue example_full_stopped)
   \<and> pthread (fst (run_thread_drain example_late (example_full_stopped, example_full_world))) = exited
   \<and> items (work_queue (fst (run_thread_drain example_late (example_full_stopped, example_full_world)))) = []
   \<and> length (posted (snd (run_thread_drain example_late (example_full_stopped, example_full_world)))) = 130
   \<and> length (ran (snd (run_thread_drain example_late (example_full_stopped, example_full_world)))) = 129"
proof -
  define s2 where "s2 = (example_full_stopped\<lparr>work_queue := \<lparr>capacity = 128,
                   items = replicate 125 (example_item 1) @ [example_item 2, example_item 2]\<rparr>\<rparr>,
               example_full_world\<lparr>posted := replicate 128 (example_item 1) @ [example_item 2, example_item 2],
                   ran := [example_item 1, example_item 1]\<rparr>)"
  obtain item' count' s' where
    dl: "drain_loop example_late (Some (example_item 1)) (Suc (Suc 0)) s2 = (item', count', s')"
    by (cases "drain_loop example_late (Some (example_item 1)) (Suc (Suc 0)) s2")
  have R: "run_thread_drain example_late (example_full_stopped, example_full_world)
      = ((fst s')\<lparr>pthread := exited\<rparr>,
         if count' > WORK_QUEUE_CAPACITY
         then ALOGD ''run_thread growing event queue on shutdown.'' (snd s') else snd s')"
    using dl by (cases s') (simp add: example_two_rounds s2_def)
  have f: "advances (unget (Some (example_item 1)) s2) (unget item' s')"
    "count' \<le> Suc WORK_QUEUE_CAPACITY"
    "length (ran (snd s')) = length (ran (snd s2)) + (count' - Suc (Suc 0))"
    "Suc (Suc 0) \<le> count'"
    "item' = None \<longrightarrow> items (work_queue (fst s')) = []"
    "item' \<noteq> None \<longrightarrow> count' = Suc WORK_QUEUE_CAPACITY"
    using drain_loop_facts[OF dl] by (simp_all add: WORK_QUEUE_CAPACITY_def)
  have quiet: "posted (snd s') = posted (snd s2)"
    using dl by (rule drain_loop_quiet) (simp add: example_late_def)
  from f(1) obtain dn nw where
    d1: "ran (snd s') = ran (snd s2) @ dn"
    and d2: "posted (snd s') = posted (snd s2) @ nw"
    and d3: "items (work_queue (fst (unget (Some (example_item 1)) s2))) @ nw
              = dn @ items (work_queue (fst (unget item' s')))"
    unfolding advances_def by (auto simp: unget_proj)
  have nw: "nw = []" using d2 quiet by simp
  have l2: "length (ran (snd s2)) = 2" "length (posted (snd s2)) = 130"
    "length (items (work_queue (fst (unget (Some (example_item 1)) s2)))) = 128"
    by (simp_all add: s2_def example_full_world_def unget_proj)
  have ldn: "length dn = count' - 2"
    using f(3) d1 l2(1) by simp
  have tot: "128 = length dn + length (items (work_queue (fst (unget item' s'))))"
    using d3 nw l2(3) by (metis append_Nil2 length_append)
  have some: "item' \<noteq> None"
  proof
    assume n: "item' = None"
    with f(5) tot have "length dn = 128" by (simp add: unget_proj)
    with ldn f(2) show False by (simp add: WORK_QUEUE_CAPACITY_def)
  qed
  with f(6) have c: "count' = 129" by (simp add: WORK_QUEUE_CAPACITY_def)
  from some obtain y where y: "item' = Some y" by (cases item') auto
  have empty: "items (work_queue (fst s')) = []"
    using tot ldn c y by (simp add: unget_proj)
  have lran: "length (ran (snd s')) = 129"
    using d1 ldn c l2(1) by simp
  have lposted: "length (posted (snd s')) = 130"
    using quiet l2(2) by simp
  have start: "length (items (work_queue example_full_stopped)) = WORK_QUEUE_CAPACITY"
    "posted example_full_world = ran example_full_world @ items (work_queue example_full_stopped)"
    by (simp_all add: example_full_stopped_def example_full_world_def example_started_def
          WORK_QUEUE_CAPACITY_def)
  have "pthread (fst (run_thread_drain example_late (example_full_stopped, example_full_world))) = exited"
    "items (work_queue (fst (run_thread_drain example_late (example_full_stopped, example_full_world)))) = []"
    "length (posted (snd (run_thread_drain example_late (example_full_stopped, example_full_world)))) = 130"
    "length (ran (snd (run_thread_drain example_late (example_full_stopped, example_full_world)))) = 129"
    using empty lran lposted by (simp_all add: R ALOGD_def)
  with start show ?thesis by blast
qed


subsection \<open>The drain on exit\<close>

text \<open>
  C1. The drain ends and \<open>run_thread\<close> returns, whatever is posted while it runs. The
  items that were in the queue when it began, at most 128 by the capacity of the queue,
  have all been run by then, in their order. The loop runs at most 129 callbacks, and
  the diagnostic is logged once exactly when it has run 129, that is when it met more
  items than the capacity.
\<close>

theorem drain_completes:
  assumes "length (items (work_queue t)) \<le> WORK_QUEUE_CAPACITY"
  shows "pthread (fst (run_thread_drain arr (t, w))) = exited
     \<and> (\<exists>rest. ran (snd (run_thread_drain arr (t, w))) = ran w @ items (work_queue t) @ rest)
     \<and> length (ran (snd (run_thread_drain arr (t, w)))) \<le> length (ran w) + Suc WORK_QUEUE_CAPACITY
     \<and> count_list (logcat (snd (run_thread_drain arr (t, w)))) growing_diag
         = count_list (logcat w) growing_diag
           + (if length (ran (snd (run_thread_drain arr (t, w)))) = length (ran w) + Suc WORK_QUEUE_CAPACITY
              then 1 else 0)"
proof -
  obtain s1 item' count' where
    r: "run_thread_drain arr (t, w)
       = ((fst s1)\<lparr>pthread := exited\<rparr>,
          if count' > WORK_QUEUE_CAPACITY
          then ALOGD ''run_thread growing event queue on shutdown.'' (snd s1) else snd s1)"
    and a: "advances (t, w) (unget item' s1)"
    and c: "count' \<le> Suc WORK_QUEUE_CAPACITY"
    and l: "length (ran (snd s1)) = length (ran (snd (t, w))) + count'"
    and e: "item' = None \<longrightarrow> items (work_queue (fst s1)) = []"
    and b: "item' \<noteq> None \<longrightarrow> count' = Suc WORK_QUEUE_CAPACITY"
    by (rule run_thread_drain_facts)
  have ran': "ran (snd (run_thread_drain arr (t, w))) = ran (snd s1)"
    by (simp add: r ALOGD_def)
  have pt: "pthread (fst (run_thread_drain arr (t, w))) = exited"
    by (simp add: r)
  have "\<exists>rest. ran (snd s1) = ran (snd (t, w)) @ items (work_queue (fst (t, w))) @ rest"
    using a e _ _
  proof (rule advances_all_run)
    show "item' \<noteq> None \<longrightarrow> length (ran (snd (t, w))) + Suc WORK_QUEUE_CAPACITY \<le> length (ran (snd s1))"
      using b l by simp
    show "length (items (work_queue (fst (t, w)))) \<le> WORK_QUEUE_CAPACITY"
      using assms by simp
  qed
  then have all: "\<exists>rest. ran (snd s1) = ran w @ items (work_queue t) @ rest" by simp
  have diag: "count_list (logcat (snd s1)) growing_diag = count_list (logcat w) growing_diag"
    using advances_diag[OF a] by (simp add: unget_proj)
  have lg: "count_list (logcat (snd (run_thread_drain arr (t, w)))) growing_diag
      = count_list (logcat (snd s1)) growing_diag + (if count' > WORK_QUEUE_CAPACITY then 1 else 0)"
    by (simp add: r ALOGD_growing)
  show ?thesis
    using c l all diag by (auto simp: ran' pt lg)
qed

text \<open>
  The full queue and the two late posts: the drain meets 130 items. The 128 that were
  queued have run, 129 callbacks have run in all, and the diagnostic is in the log.
\<close>

theorem drain_completes_witness:
  "length (items (work_queue example_full_stopped)) \<le> WORK_QUEUE_CAPACITY
   \<and> pthread (fst (run_thread_drain example_late (example_full_stopped, example_full_world))) = exited
   \<and> take 128 (ran (snd (run_thread_drain example_late (example_full_stopped, example_full_world))))
       = items (work_queue example_full_stopped)
   \<and> length (ran (snd (run_thread_drain example_late (example_full_stopped, example_full_world)))) = 129
   \<and> count_list (logcat (snd (run_thread_drain example_late (example_full_stopped, example_full_world)))) growing_diag = 1"
proof -
  have h: "length (items (work_queue example_full_stopped)) \<le> WORK_QUEUE_CAPACITY"
    and n: "length (items (work_queue example_full_stopped)) = 128"
    and w: "ran example_full_world = []" "logcat example_full_world = []"
    by (simp_all add: example_full_stopped_def example_full_world_def example_started_def
          WORK_QUEUE_CAPACITY_def)
  note d = drain_completes [OF h, of example_late example_full_world]
  from d obtain rest where
    r: "ran (snd (run_thread_drain example_late (example_full_stopped, example_full_world)))
          = items (work_queue example_full_stopped) @ rest"
    using w by auto
  have t: "take 128 (ran (snd (run_thread_drain example_late (example_full_stopped, example_full_world))))
       = items (work_queue example_full_stopped)"
    using n by (simp add: r)
  have l: "length (ran (snd (run_thread_drain example_late (example_full_stopped, example_full_world)))) = 129"
    using example_overflow by simp
  have g: "count_list (logcat (snd (run_thread_drain example_late (example_full_stopped, example_full_world)))) growing_diag = 1"
    using d l w by (simp add: WORK_QUEUE_CAPACITY_def)
  from h d t l g show ?thesis by simp
qed

subsection \<open>Freeing\<close>




text \<open>
  C8. \<open>thread_free\<close> on a null handle returns and leaves the world as it is.
\<close>

theorem thread_free_null: "thread_free sched arr None w = Return w"
  by (simp add: thread_free_def)

subsection \<open>Order of the callbacks\<close>

text \<open>A new thread has an empty queue, and \<open>thread_new\<close> posts and runs nothing.\<close>

lemma thread_new_history:
  assumes "thread_new n env nm w = Return (Some t, w')"
  shows "posted w' = posted w \<and> ran w' = ran w \<and> items (work_queue t) = []"
  using assms
  by (cases "spawn env")
     (auto simp: thread_new_def thread_new_error_def pthread_create_def prctl_fails_def
        run_thread_start_def lib_defs Let_def
        split: if_splits option.splits)




subsection \<open>The name\<close>

lemma thread_register_name:
  "thread_register a i obj s = Return s' \<Longrightarrow> name (fst s') = name (fst s)"
  by (cases s)
     (auto simp: thread_register_def malloc_def
        split: if_splits outcome.splits dest!: thread_post_facts(1) advances_name)

lemma thread_unregister_name:
  assumes "thread_unregister k i sched obj s = Return s'"
  shows "name (fst s') = name (fst s)"
proof -
  obtain t w where s: "s = (t, w)" by (cases s)
  show ?thesis
  proof (cases k)
    case False
    with assms s show ?thesis by (auto simp: thread_unregister_def lib_defs)
  next
    case True
    with assms s obtain b s2 where
      p: "thread_post i unregister_with_reactor_cb_ptr (reactor_unregister_arg obj (length (sems w)))
            (t, w\<lparr>live := semaphore_block # live w, sems := sems w @ [0]\<rparr>) = Return (b, s2)"
      and f: "fst s' = fst (worker_runs sched s2)"
      by (auto simp: thread_unregister_def semaphore_new_def
            split: outcome.splits prod.splits option.splits)
    have "name (fst s2) = name t"
      using advances_name[OF thread_post_facts(1)[OF p]] by simp
    moreover have "name (fst (worker_runs sched s2)) = name (fst s2)"
      using worker_runs_advances by (rule advances_name)
    ultimately show ?thesis
      using f s by simp
  qed
qed

text \<open>
  C9. The name buffer of a thread that \<open>thread_new\<close> returns has \<open>THREAD_NAME_MAX + 1\<close>
  bytes and its last byte is NUL. \<open>thread_name\<close> reads as the name given to
  \<open>thread_new\<close> cut to its first \<open>THREAD_NAME_MAX\<close> characters. No later operation
  changes it: not \<open>thread_post\<close>, \<open>thread_stop\<close>, \<open>thread_register\<close> or
  \<open>thread_unregister\<close>, and not the worker, in its reactor or up to its exit.
\<close>

theorem thread_name_bounded_and_kept:
  assumes "thread_new n env nm w = Return (Some t, w')"
  shows "length (thread_name t) = Suc n \<and> thread_name t ! n = NUL
       \<and> length (c_str (thread_name t)) \<le> n
       \<and> c_str (thread_name t) = take n (c_str nm)
       \<and> (\<forall>s item_ok f c b s'. thread_post item_ok f c s = Return (b, s') \<longrightarrow>
             thread_name (fst s') = thread_name (fst s))
       \<and> (\<forall>s. thread_name (fst (thread_stop s)) = thread_name (fst s))
       \<and> (\<forall>s arg_ok item_ok obj s'. thread_register arg_ok item_ok obj s = Return s' \<longrightarrow>
             thread_name (fst s') = thread_name (fst s))
       \<and> (\<forall>s new_ok item_ok sched obj s'. thread_unregister new_ok item_ok sched obj s = Return s' \<longrightarrow>
             thread_name (fst s') = thread_name (fst s))
       \<and> (\<forall>s sched. thread_name (fst (worker_runs sched s)) = thread_name (fst s))
       \<and> (\<forall>s sched arr s'. pthread_join sched arr s = Return s' \<longrightarrow>
             thread_name (fst s') = thread_name (fst s))"
proof -
  from assms have nm: "name t = strncpy (replicate (Suc n) NUL) nm n"
    by (cases "spawn env")
       (auto simp: thread_new_def thread_new_error_def pthread_create_def prctl_fails_def
          run_thread_start_def lib_defs Let_def
          split: if_splits option.splits simp del: replicate_Suc)
  have 1: "length (thread_name t) = Suc n \<and> thread_name t ! n = NUL
       \<and> length (c_str (thread_name t)) \<le> n \<and> c_str (thread_name t) = take n (c_str nm)"
    by (simp add: thread_name_def nm length_strncpy_zeroed nth_strncpy_zeroed c_str_strncpy_zeroed
          del: replicate_Suc)
  have 2: "\<forall>s item_ok f c b s'. thread_post item_ok f c s = Return (b, s') \<longrightarrow>
             thread_name (fst s') = thread_name (fst s)"
    by (auto simp: thread_name_def dest!: thread_post_facts(1) advances_name)
  have 3: "\<forall>s. thread_name (fst (thread_stop s)) = thread_name (fst s)"
    using thread_stop_facts(1)[THEN advances_name] by (simp add: thread_name_def)
  have 4: "\<forall>s arg_ok item_ok obj s'. thread_register arg_ok item_ok obj s = Return s' \<longrightarrow>
             thread_name (fst s') = thread_name (fst s)"
    by (auto simp: thread_name_def dest: thread_register_name)
  have 5: "\<forall>s new_ok item_ok sched obj s'. thread_unregister new_ok item_ok sched obj s = Return s' \<longrightarrow>
             thread_name (fst s') = thread_name (fst s)"
    by (auto simp: thread_name_def dest: thread_unregister_name)
  have 6: "\<forall>s sched. thread_name (fst (worker_runs sched s)) = thread_name (fst s)"
    using worker_runs_advances[THEN advances_name] by (simp add: thread_name_def)
  have 7: "\<forall>s sched arr s'. pthread_join sched arr s = Return s' \<longrightarrow>
             thread_name (fst s') = thread_name (fst s)"
    by (auto simp: thread_name_def dest: pthread_join_name)
  from 1 2 3 4 5 6 7 show ?thesis by blast
qed

theorem thread_name_bounded_and_kept_witness:
  "thread_new 16 example_env example_name example_world = Return (Some example_thread, example_started)
   \<and> length (thread_name example_thread) = 17
   \<and> c_str (thread_name example_thread) = take 16 (c_str example_name)
   \<and> c_str (thread_name example_thread) = ''bluetooth_worker''"
proof -
  have kept: "length (thread_name example_thread) = 17"
    "c_str (thread_name example_thread) = take 16 (c_str example_name)"
    using thread_name_bounded_and_kept [OF example_thread_new] by simp_all
  have "c_str (thread_name example_thread) = ''bluetooth_worker''"
    by (simp add: thread_name_def example_thread_def c_str_def NUL_def)
  with example_thread_new kept show ?thesis by simp
qed

end
